theory Spec2Isabelle
  imports Complex_Main "HOL-Library.Sublist"
begin

section \<open>Upstream items and array operations\<close>

text \<open>
  An element of an array returned by the upstream IPTV API. The handlers read two of its
  fields: \<open>name\<close> (the search) and \<open>added\<close> (the recent lists). \<open>added\<close> holds the number
  the comparators obtain from the field (\<open>parseInt(x.added)\<close> in /vods/recent,
  \<open>new Date(x.added)\<close> in /series/recent and /live/recent), for items whose field
  parses to a number; \<open>stream_id\<close> stands for the remaining fields, which the server
  passes through untouched.
\<close>

record item =
  name :: string
  added :: int
  stream_id :: nat

text \<open>
  \<open>Array.prototype.slice(start, end)\<close>: a negative index counts from the end of the
  array, both indices are clamped to the array, and an empty range gives the empty array.
  \<open>slice_bounds\<close> computes the first position taken and the position after the last one.
\<close>

definition slice_bounds :: "nat \<Rightarrow> int \<Rightarrow> int \<Rightarrow> nat \<times> nat" where
  "slice_bounds len start stop =
     (let k = (if start < 0 then max (int len + start) 0 else min start (int len));
          final = (if stop < 0 then max (int len + stop) 0 else min stop (int len))
      in (nat k, nat (max final k)))"

definition slice_positions :: "nat \<Rightarrow> int \<Rightarrow> int \<Rightarrow> nat list" where
  "slice_positions len start stop = (case slice_bounds len start stop of (k, final) \<Rightarrow> [k..<final])"

definition js_slice :: "'a list \<Rightarrow> int \<Rightarrow> int \<Rightarrow> 'a list" where
  "js_slice xs start stop =
     (case slice_bounds (length xs) start stop of (k, final) \<Rightarrow> take (final - k) (drop k xs))"

text \<open>
  \<open>parseInt(req.query.page) || 1\<close>. The request carries the result of \<open>parseInt\<close> on the
  query parameter, \<open>None\<close> for NaN (an absent or non-numeric parameter); NaN and 0 are
  falsy, so both give page 1.
\<close>

definition page_of :: "int option \<Rightarrow> int" where
  "page_of p = (case p of None \<Rightarrow> 1 | Some n \<Rightarrow> if n = 0 then 1 else n)"

definition limit :: int where
  "limit = 10"

text \<open>\<open>list.slice((page - 1) * limit, page * limit)\<close>\<close>

definition paginate :: "'a list \<Rightarrow> int \<Rightarrow> 'a list" where
  "paginate xs page = js_slice xs ((page - 1) * limit) (page * limit)"

definition page_positions :: "nat \<Rightarrow> int \<Rightarrow> nat list" where
  "page_positions len page = slice_positions len ((page - 1) * limit) (page * limit)"

text \<open>\<open>Math.ceil(list.length / limit)\<close>\<close>

definition totalPages_of :: "nat \<Rightarrow> int" where
  "totalPages_of len = \<lceil>real len / real_of_int limit\<rceil>"

text \<open>
  \<open>Array.prototype.sort\<close> with the comparator \<open>(a, b) => key(b) - key(a)\<close>: the sort is
  stable, and the comparator puts the larger key first.
\<close>

definition sort_added_desc :: "item list \<Rightarrow> item list" where
  "sort_added_desc xs = sort_key (\<lambda>x. - added x) xs"

text \<open>The body of a paginated response: \<open>{page, total, totalPages, data}\<close>.\<close>

record page_body =
  page :: int
  total :: nat
  totalPages :: int
  data :: "item list"

text \<open>The /vods/recent handler after the upstream call: sort, keep 50, paginate.\<close>

definition vods_recent_body :: "item list \<Rightarrow> int \<Rightarrow> page_body" where
  "vods_recent_body vods pg =
     (let totalItems = 50;
          recentVods = js_slice (sort_added_desc vods) 0 totalItems;
          paginatedVods = paginate recentVods pg
      in \<lparr>page = pg, total = length recentVods,
          totalPages = totalPages_of (length recentVods), data = paginatedVods\<rparr>)"

text \<open>
  The /series/recent and /live/recent handlers after the upstream call: keep the first 50
  of the upstream array, sort those, paginate. (\<open>sort\<close> works in place on the truncated
  array, so \<open>limitedSeries.length\<close> is read after sorting; sorting keeps the length.)
\<close>

definition series_recent_body :: "item list \<Rightarrow> int \<Rightarrow> page_body" where
  "series_recent_body series pg =
     (let limitedSeries = js_slice series 0 50;
          sortedSeries = sort_added_desc limitedSeries;
          paginatedSeries = paginate sortedSeries pg
      in \<lparr>page = pg, total = length limitedSeries,
          totalPages = totalPages_of (length limitedSeries), data = paginatedSeries\<rparr>)"

definition live_recent_body :: "item list \<Rightarrow> int \<Rightarrow> page_body" where
  "live_recent_body liveStreams pg =
     (let limitedLiveStreams = js_slice liveStreams 0 50;
          sortedLiveStreams = sort_added_desc limitedLiveStreams;
          paginatedLiveStreams = paginate sortedLiveStreams pg
      in \<lparr>page = pg, total = length limitedLiveStreams,
          totalPages = totalPages_of (length limitedLiveStreams), data = paginatedLiveStreams\<rparr>)"

text \<open>The plain paginated lists (/vods, /series, /live and the three per-category lists).\<close>

definition list_body :: "item list \<Rightarrow> int \<Rightarrow> page_body" where
  "list_body xs pg =
     \<lparr>page = pg, total = length xs, totalPages = totalPages_of (length xs),
      data = paginate xs pg\<rparr>"

section \<open>Strings\<close>

text \<open>
  Strings are lists of ASCII characters. \<open>toLowerCase\<close> maps the letters A to Z to a to z
  and \<open>str_includes s t\<close>, for \<open>s.includes(t)\<close>, tests whether \<open>t\<close> occurs in \<open>s\<close> as a contiguous block.
\<close>

definition lower_char :: "char \<Rightarrow> char" where
  "lower_char c =
     (let n = (of_char c :: nat) in if 65 \<le> n \<and> n \<le> 90 then char_of (n + 32) else c)"

definition toLowerCase :: "string \<Rightarrow> string" where
  "toLowerCase s = map lower_char s"

fun str_includes :: "string \<Rightarrow> string \<Rightarrow> bool" where
  "str_includes [] t = (t = [])"
| "str_includes (c # s) t = (prefix t (c # s) \<or> str_includes s t)"



text \<open>\<open>Number.prototype.toString\<close> on an integer: its decimal digits.\<close>

definition digit_char :: "nat \<Rightarrow> char" where
  "digit_char d = char_of (48 + d)"

function digits :: "nat \<Rightarrow> string" where
  "digits n = (if n < 10 then [digit_char n] else digits (n div 10) @ [digit_char (n mod 10)])"
  by pat_completeness auto
termination
  by (relation "measure id") auto

declare digits.simps [simp del]

definition toString :: "int \<Rightarrow> string" where
  "toString i = (if i < 0 then CHR ''-'' # digits (nat (- i)) else digits (nat i))"

section \<open>Requests, responses and the stored documents\<close>

text \<open>
  An \<open>ObjectId\<close> is a number; a request parameter that names a document is the id it casts
  to. Message texts are written in ASCII, without their accents and inverted exclamation
  marks.
\<close>

type_synonym objectId = nat

record profile =
  p_id :: objectId
  userId :: objectId
  url :: string
  p_username :: string
  p_password :: string
  p_name :: string

record user =
  u_id :: objectId
  firstName :: string
  lastName :: string
  username :: string
  email :: string
  password :: string
  verificationToken :: "string option"
  verificationExpires :: "int option"
  isVerified :: bool

text \<open>
  The parts of an Express request the handlers read. \<open>req_user\<close> is \<open>req.user.userId\<close>,
  unset until \<open>authenticateToken\<close> stores the token's payload; \<open>query_page\<close> is
  \<open>parseInt(req.query.page)\<close> with \<open>None\<close> for NaN; \<open>params_id\<close> is the route parameter of
  the per-category and detail routes.
\<close>

record request =
  x_api_key :: "string option"
  authorization :: "string option"
  req_user :: "objectId option"
  query_profile :: "objectId option"
  params_profileId :: "objectId option"
  query_page :: "int option"
  query_q :: "string option"
  params_id :: string

datatype body =
    JError string
  | JMessage string
  | JStatusText
  | JProfile profile
  | JProfiles "profile list"
  | JPage page_body
  | JItems "item list"
  | JSearch string "item list" "item list" "item list"
  | JResetToken objectId

record response =
  status :: nat
  body :: body


section \<open>Middlewares\<close>





text \<open>\<open>req.query.profile || req.params.profileId\<close>\<close>

definition profileId_of :: "request \<Rightarrow> objectId option" where
  "profileId_of req =
     (case query_profile req of Some p \<Rightarrow> Some p | None \<Rightarrow> params_profileId req)"



type_synonym handled = "string list \<times> response option"


section \<open>Profiles\<close>

text \<open>\<open>Profile.findOne({_id, userId})\<close> and \<open>Profile.find({userId})\<close> on the stored profiles.\<close>

definition findOne_profile :: "profile list \<Rightarrow> objectId \<Rightarrow> objectId \<Rightarrow> profile option" where
  "findOne_profile Profile i u = find (\<lambda>p. p_id p = i \<and> userId p = u) Profile"

definition find_profiles :: "profile list \<Rightarrow> objectId \<Rightarrow> profile list" where
  "find_profiles Profile u = filter (\<lambda>p. userId p = u) Profile"

text \<open>
  \<open>getProfileParams\<close>: the profile of the request, or the thrown error. Reading
  \<open>req.user.userId\<close> of a request without \<open>req.user\<close> throws a TypeError. Every route that
  calls it runs \<open>requireProfile\<close> first; an undefined profile id matches no profile.
\<close>

definition getProfileParams :: "request \<Rightarrow> profile list \<Rightarrow> string + profile" where
  "getProfileParams req Profile =
     (case req_user req of
        None \<Rightarrow> Inl ''TypeError''
      | Some u \<Rightarrow>
          (case profileId_of req of
             None \<Rightarrow> Inl ''Perfil no encontrado o no autorizado''
           | Some profileId \<Rightarrow>
               (case findOne_profile Profile profileId u of
                  None \<Rightarrow> Inl ''Perfil no encontrado o no autorizado''
                | Some profile \<Rightarrow> Inr profile)))"

text \<open>
  GET /profiles and GET /profiles/:profileId. Neither handler has a try block: an
  exception ends it without a response. (The second route always binds \<open>profileId\<close>; an
  undefined id matches no profile.)
\<close>

definition get_profiles_handler :: "profile list \<Rightarrow> request \<Rightarrow> handled" where
  "get_profiles_handler Profile req =
     (case req_user req of
        None \<Rightarrow> ([], None)
      | Some u \<Rightarrow> ([], Some \<lparr>status = 200, body = JProfiles (find_profiles Profile u)\<rparr>))"

definition get_profile_handler :: "profile list \<Rightarrow> request \<Rightarrow> handled" where
  "get_profile_handler Profile req =
     (case req_user req of
        None \<Rightarrow> ([], None)
      | Some u \<Rightarrow>
          (case params_profileId req of
             None \<Rightarrow> ([], Some \<lparr>status = 404, body = JError ''Perfil no encontrado''\<rparr>)
           | Some profileId \<Rightarrow>
               (case findOne_profile Profile profileId u of
                  None \<Rightarrow> ([], Some \<lparr>status = 404, body = JError ''Perfil no encontrado''\<rparr>)
                | Some profile \<Rightarrow> ([], Some \<lparr>status = 200, body = JProfile profile\<rparr>))))"



section \<open>Content endpoints\<close>

text \<open>
  The upstream IPTV API: \<open>axios.get(url)\<close> gives the array in \<open>response.data\<close>, or fails
  (\<open>None\<close>). \<open>getFromApi\<close> returns the URL it requested together with the data or the
  error it throws.
\<close>

type_synonym upstream = "string \<Rightarrow> item list option"

definition api_url :: "string \<Rightarrow> string \<Rightarrow> string \<Rightarrow> string \<Rightarrow> string \<Rightarrow> string" where
  "api_url apiUrl usernm passwd action additionalParams =
     apiUrl @ ''/player_api.php?username='' @ usernm @ ''&password='' @ passwd
       @ ''&action='' @ action @ additionalParams"

definition getFromApi ::
  "upstream \<Rightarrow> string \<Rightarrow> string \<Rightarrow> string \<Rightarrow> string \<Rightarrow> string \<Rightarrow> string list \<times> (string + item list)"
where
  "getFromApi api apiUrl usernm passwd action additionalParams =
     (let u = api_url apiUrl usernm passwd action additionalParams
      in ([u], case api u of
                 None \<Rightarrow> Inl ''Error al comunicarse con la API IPTV''
               | Some d \<Rightarrow> Inr d))"

definition error500 :: "string \<Rightarrow> response option" where
  "error500 msg = Some \<lparr>status = 500, body = JError msg\<rparr>"

definition json200 :: "body \<Rightarrow> response option" where
  "json200 b = Some \<lparr>status = 200, body = b\<rparr>"

text \<open>
  The shape every content handler but the search has: inside one try block, resolve the
  profile, make one upstream request, answer with a function of its data; the catch
  branch answers 500 with the handler's message.
\<close>

definition fetch_and_respond ::
  "upstream \<Rightarrow> profile list \<Rightarrow> request \<Rightarrow> string \<Rightarrow> string \<Rightarrow> string \<Rightarrow> (item list \<Rightarrow> body) \<Rightarrow> handled"
where
  "fetch_and_respond api Profile req action additionalParams msg respond =
     (case getProfileParams req Profile of
        Inl e \<Rightarrow> ([], error500 msg)
      | Inr profile \<Rightarrow>
          (case getFromApi api (url profile) (p_username profile) (p_password profile)
                  action additionalParams of
             (cs, Inl e) \<Rightarrow> (cs, error500 msg)
           | (cs, Inr d) \<Rightarrow> (cs, json200 (respond d))))"

text \<open>The filter of the search: \<open>item.name.toLowerCase().includes(query.toLowerCase())\<close>.\<close>

definition matches :: "string \<Rightarrow> item \<Rightarrow> bool" where
  "matches query it = str_includes (toLowerCase (name it)) (toLowerCase query)"

definition search_handler :: "upstream \<Rightarrow> profile list \<Rightarrow> request \<Rightarrow> handled" where
  "search_handler api Profile req =
     (case getProfileParams req Profile of
        Inl e \<Rightarrow> ([], error500 ''Error al realizar la busqueda'')
      | Inr profile \<Rightarrow>
          (case query_q req of
             None \<Rightarrow>
               ([], Some \<lparr>status = 400,
                          body = JError ''Debe proporcionar un termino de busqueda (q)''\<rparr>)
           | Some query \<Rightarrow>
               if query = [] then
                 ([], Some \<lparr>status = 400,
                            body = JError ''Debe proporcionar un termino de busqueda (q)''\<rparr>)
               else
                 (case getFromApi api (url profile) (p_username profile) (p_password profile)
                         ''get_live_streams'' [] of (c1, r1) \<Rightarrow>
                  case getFromApi api (url profile) (p_username profile) (p_password profile)
                         ''get_vod_streams'' [] of (c2, r2) \<Rightarrow>
                  case getFromApi api (url profile) (p_username profile) (p_password profile)
                         ''get_series'' [] of (c3, r3) \<Rightarrow>
                  (case (r1, r2, r3) of
                     (Inr liveStreams, Inr movies, Inr series) \<Rightarrow>
                       (c1 @ c2 @ c3,
                        json200 (JSearch query (filter (matches query) liveStreams)
                                   (filter (matches query) movies)
                                   (filter (matches query) series)))
                   | _ \<Rightarrow> (c1 @ c2 @ c3, error500 ''Error al realizar la busqueda'')))))"

datatype endpoint =
    VodsRecent | VodsCategories | Vods | VodsCategory | VodDetail
  | SeriesRecent | SeriesCategories | Series | SeriesCategory | SeriesDetail
  | LiveRecent | LiveCategories | Live | LiveCategory | LiveDetail
  | Search

fun content_handler :: "upstream \<Rightarrow> profile list \<Rightarrow> endpoint \<Rightarrow> request \<Rightarrow> handled" where
  "content_handler api Profile VodsRecent req =
     fetch_and_respond api Profile req ''get_vod_streams'' []
       ''Error al obtener los VODs recientes''
       (\<lambda>vods. JPage (vods_recent_body vods (page_of (query_page req))))"
| "content_handler api Profile VodsCategories req =
     fetch_and_respond api Profile req ''get_vod_categories'' []
       ''Error al obtener las categorias de VODs'' JItems"
| "content_handler api Profile Vods req =
     fetch_and_respond api Profile req ''get_vod_streams'' []
       ''Error al obtener los VODs''
       (\<lambda>vods. JPage (list_body vods (page_of (query_page req))))"
| "content_handler api Profile VodsCategory req =
     fetch_and_respond api Profile req ''get_vod_streams'' (''&category_id='' @ params_id req)
       ''Error al obtener los VODs por categoria''
       (\<lambda>vods. JPage (list_body vods (page_of (query_page req))))"
| "content_handler api Profile VodDetail req =
     fetch_and_respond api Profile req ''get_vod_streams'' (''&vod_id='' @ params_id req)
       ''Error al obtener los detalles del VOD'' JItems"
| "content_handler api Profile SeriesRecent req =
     fetch_and_respond api Profile req ''get_series'' []
       ''Error al obtener las series recientes''
       (\<lambda>series. JPage (series_recent_body series (page_of (query_page req))))"
| "content_handler api Profile SeriesCategories req =
     fetch_and_respond api Profile req ''get_series_categories'' []
       ''Error al obtener las categorias de series'' JItems"
| "content_handler api Profile Series req =
     fetch_and_respond api Profile req ''get_series'' []
       ''Error al obtener las series''
       (\<lambda>series. JPage (list_body series (page_of (query_page req))))"
| "content_handler api Profile SeriesCategory req =
     fetch_and_respond api Profile req ''get_series_streams'' (''&category_id='' @ params_id req)
       ''Error al obtener las series por categoria''
       (\<lambda>series. JPage (list_body series (page_of (query_page req))))"
| "content_handler api Profile SeriesDetail req =
     fetch_and_respond api Profile req ''get_series_streams'' (''&series_id='' @ params_id req)
       ''Error al obtener los detalles de la serie'' JItems"
| "content_handler api Profile LiveRecent req =
     fetch_and_respond api Profile req ''get_live_streams'' []
       ''Error al obtener los live streams recientes''
       (\<lambda>liveStreams. JPage (live_recent_body liveStreams (page_of (query_page req))))"
| "content_handler api Profile LiveCategories req =
     fetch_and_respond api Profile req ''get_live_categories'' []
       ''Error al obtener las categorias de live streams'' JItems"
| "content_handler api Profile Live req =
     fetch_and_respond api Profile req ''get_live_streams'' []
       ''Error al obtener los live streams''
       (\<lambda>liveStreams. JPage (list_body liveStreams (page_of (query_page req))))"
| "content_handler api Profile LiveCategory req =
     fetch_and_respond api Profile req ''get_live_streams'' (''&category_id='' @ params_id req)
       ''Error al obtener los live streams por categoria''
       (\<lambda>liveStreams. JPage (list_body liveStreams (page_of (query_page req))))"
| "content_handler api Profile LiveDetail req =
     fetch_and_respond api Profile req ''get_live_streams'' (''&live_id='' @ params_id req)
       ''Error al obtener los detalles del live stream'' JItems"
| "content_handler api Profile Search req = search_handler api Profile req"


section \<open>Accounts\<close>

text \<open>
  The \<open>User\<close> collection is the list of its documents in insertion order; \<open>findOne\<close>
  returns the first match. The schema declares \<open>username\<close> and \<open>email\<close> unique, so saving a
  new document that repeats one of them is rejected.
\<close>

definition findOne_user :: "(user \<Rightarrow> bool) \<Rightarrow> user list \<Rightarrow> user option" where
  "findOne_user P User = find P User"

definition save_new :: "user \<Rightarrow> user list \<Rightarrow> user list option" where
  "save_new u User =
     (if list_ex (\<lambda>v. username v = username u \<or> email v = email u \<or> u_id v = u_id u) User
      then None else Some (User @ [u]))"

text \<open>Saving a loaded document writes it over the stored document with its \<open>_id\<close>.\<close>

fun save_existing :: "user \<Rightarrow> user list \<Rightarrow> user list" where
  "save_existing u [] = []"
| "save_existing u (v # vs) = (if u_id v = u_id u then u # vs else v # save_existing u vs)"

text \<open>\<open>User.deleteOne({ email })\<close>\<close>

fun deleteOne_email :: "string \<Rightarrow> user list \<Rightarrow> user list" where
  "deleteOne_email e [] = []"
| "deleteOne_email e (v # vs) = (if email v = e then vs else v # deleteOne_email e vs)"

text \<open>
  \<open>Math.floor(100000 + Math.random() * 900000).toString()\<close> for a draw \<open>r\<close> of
  \<open>Math.random()\<close>, a number with \<open>0 \<le> r < 1\<close>.
\<close>

definition random_code :: "real \<Rightarrow> string" where
  "random_code r = toString \<lfloor>100000 + r * 900000\<rfloor>"

text \<open>
  \<open>generateUniqueVerificationCode\<close>: draw codes until one is not the \<open>verificationToken\<close>
  of any user. The second argument holds the successive results of \<open>Math.random()\<close>; the
  result is \<open>None\<close> when every one of them gave a code in use, that is, when the loop is
  still running after the last of them.
\<close>

fun generateUniqueVerificationCode :: "user list \<Rightarrow> real list \<Rightarrow> string option" where
  "generateUniqueVerificationCode User [] = None"
| "generateUniqueVerificationCode User (r # rs) =
     (let code = random_code r;
          userWithSameCode = findOne_user (\<lambda>u. verificationToken u = Some code) User
      in case userWithSameCode of
           Some _ \<Rightarrow> generateUniqueVerificationCode User rs
         | None \<Rightarrow> Some code)"

text \<open>
  What a handler takes from outside the store: the result of \<open>bcrypt.hash\<close> (\<open>None\<close> for
  its error), the draws of \<open>Math.random()\<close>, \<open>Date.now()\<close>, the \<open>_id\<close> given to a new
  document, and whether SendGrid delivers the handler's email.
\<close>

record world =
  bcrypt_hash :: "string \<Rightarrow> string option"
  random_draws :: "real list"
  date_now :: int
  new_objectId :: objectId
  mail_ok :: bool

text \<open>A body field is falsy when it is absent or the empty string.\<close>

definition truthy :: "string option \<Rightarrow> bool" where
  "truthy x = (case x of None \<Rightarrow> False | Some s \<Rightarrow> s \<noteq> [])"

record register_body =
  b_username :: "string option"
  b_password :: "string option"
  b_email :: "string option"
  b_firstName :: "string option"
  b_lastName :: "string option"

text \<open>
  An account handler returns the new collection and the response; the response is \<open>None\<close>
  when the handler sends none (the code loop does not end, or a rejection inside the
  \<open>bcrypt.hash\<close> callback, which no try block encloses).
\<close>

type_synonym account_result = "user list \<times> response option"

text \<open>POST /register\<close>

definition register :: "world \<Rightarrow> user list \<Rightarrow> register_body \<Rightarrow> account_result" where
  "register w User b =
     (if \<not> truthy (b_username b) \<or> \<not> truthy (b_password b) \<or> \<not> truthy (b_email b)
         \<or> \<not> truthy (b_firstName b) \<or> \<not> truthy (b_lastName b)
      then (User, Some \<lparr>status = 400, body = JError ''Todos los campos son requeridos''\<rparr>)
      else
        let usernm = the (b_username b); passwd = the (b_password b); mail = the (b_email b);
            first = the (b_firstName b); last = the (b_lastName b)
        in (case findOne_user (\<lambda>u. username u = usernm) User of
             Some existingUser \<Rightarrow>
               (User, Some \<lparr>status = 400, body = JError ''El usuario ya existe''\<rparr>)
           | None \<Rightarrow>
               (case bcrypt_hash w passwd of
                  None \<Rightarrow>
                    (User, Some \<lparr>status = 500, body = JError ''Error al encriptar la contrasena''\<rparr>)
                | Some hashedPassword \<Rightarrow>
                    (case generateUniqueVerificationCode User (random_draws w) of
                       None \<Rightarrow> (User, None)
                     | Some verificationCode \<Rightarrow>
                         let expiresIn = date_now w + 10 * 60 * 1000;
                             newUser = \<lparr>u_id = new_objectId w, firstName = first, lastName = last,
                                        username = usernm, email = mail, password = hashedPassword,
                                        verificationToken = Some verificationCode,
                                        verificationExpires = Some expiresIn, isVerified = False\<rparr>
                         in (case save_new newUser User of
                               None \<Rightarrow> (User, None)
                             | Some User' \<Rightarrow>
                                 if mail_ok w then
                                   (User', Some \<lparr>status = 201, body = JMessage
                                      ''Usuario registrado exitosamente. Por favor, verifica tu correo para activar tu cuenta.''\<rparr>)
                                 else
                                   (deleteOne_email mail User', Some \<lparr>status = 500, body = JError
                                      ''Error al enviar el correo de verificacion. Tu cuenta no ha sido creada.''\<rparr>))))))"

text \<open>POST /verify\<close>

definition verify :: "world \<Rightarrow> user list \<Rightarrow> string option \<Rightarrow> account_result" where
  "verify w User code =
     (if \<not> truthy code
      then (User, Some \<lparr>status = 400, body = JError ''El codigo de verificacion es requerido.''\<rparr>)
      else case findOne_user (\<lambda>u. verificationToken u = code) User of
             None \<Rightarrow>
               (User, Some \<lparr>status = 400, body = JError ''Codigo de verificacion invalido.''\<rparr>)
           | Some u \<Rightarrow>
               if (case verificationExpires u of None \<Rightarrow> False | Some e \<Rightarrow> date_now w > e)
               then (User, Some \<lparr>status = 400, body = JError
                       ''El codigo de verificacion ha expirado. Por favor, solicita uno nuevo.''\<rparr>)
               else
                 let User' = save_existing
                       (u\<lparr>isVerified := True, verificationToken := None,
                          verificationExpires := None\<rparr>) User
                 in if mail_ok w then
                      (User', Some \<lparr>status = 200, body = JMessage
                         ''Cuenta verificada exitosamente! Ahora puedes iniciar sesion.''\<rparr>)
                    else
                      (User', Some \<lparr>status = 500, body = JMessage
                         ''Hubo un error al verificar la cuenta. Intentalo de nuevo.''\<rparr>))"

text \<open>POST /resend-verification\<close>

definition resend_verification :: "world \<Rightarrow> user list \<Rightarrow> string option \<Rightarrow> account_result" where
  "resend_verification w User mail =
     (if \<not> truthy mail
      then (User, Some \<lparr>status = 400, body = JError ''El correo electronico es requerido.''\<rparr>)
      else case findOne_user (\<lambda>u. Some (email u) = mail) User of
             None \<Rightarrow> (User, Some \<lparr>status = 404, body = JError ''Usuario no encontrado.''\<rparr>)
           | Some u \<Rightarrow>
               if isVerified u
               then (User, Some \<lparr>status = 400, body = JError ''La cuenta ya esta verificada.''\<rparr>)
               else
                 (case generateUniqueVerificationCode User (random_draws w) of
                    None \<Rightarrow> (User, None)
                  | Some newVerificationCode \<Rightarrow>
                      let newExpirationTime = date_now w + 10 * 60 * 1000;
                          User' = save_existing
                            (u\<lparr>verificationToken := Some newVerificationCode,
                               verificationExpires := Some newExpirationTime\<rparr>) User
                      in if mail_ok w then
                           (User', Some \<lparr>status = 200, body = JMessage
                              ''Correo de verificacion reenviado exitosamente.''\<rparr>)
                         else
                           (User', Some \<lparr>status = 500, body = JError
                              ''Error al enviar el correo de verificacion.''\<rparr>)))"

text \<open>POST /forgot-password\<close>

definition forgot_password :: "world \<Rightarrow> user list \<Rightarrow> string option \<Rightarrow> account_result" where
  "forgot_password w User mail =
     (if \<not> truthy mail
      then (User, Some \<lparr>status = 400, body = JError ''El correo electronico es requerido.''\<rparr>)
      else case findOne_user (\<lambda>u. Some (email u) = mail) User of
             None \<Rightarrow> (User, Some \<lparr>status = 404, body = JError ''Usuario no encontrado.''\<rparr>)
           | Some u \<Rightarrow>
               (case generateUniqueVerificationCode User (random_draws w) of
                  None \<Rightarrow> (User, None)
                | Some verificationCode \<Rightarrow>
                    let expiresIn = date_now w + 10 * 60 * 1000;
                        User' = save_existing
                          (u\<lparr>verificationToken := Some verificationCode,
                             verificationExpires := Some expiresIn\<rparr>) User
                    in if mail_ok w then
                         (User', Some \<lparr>status = 200, body = JMessage
                            ''Codigo de recuperacion enviado exitosamente.''\<rparr>)
                       else
                         (User', Some \<lparr>status = 500, body = JError
                            ''Error al enviar el correo de recuperacion.''\<rparr>)))"


text \<open>
  POST /reset-password, after \<open>authenticateResetToken\<close> has put the \<open>userId\<close> of the reset
  token into the request.
\<close>

definition reset_password :: "world \<Rightarrow> user list \<Rightarrow> objectId \<Rightarrow> string option \<Rightarrow> account_result" where
  "reset_password w User uid newPassword =
     (if \<not> truthy newPassword
      then (User, Some \<lparr>status = 400, body = JError ''La nueva contrasena es requerida.''\<rparr>)
      else case findOne_user (\<lambda>u. u_id u = uid) User of
             None \<Rightarrow> (User, Some \<lparr>status = 404, body = JError ''Usuario no encontrado.''\<rparr>)
           | Some u \<Rightarrow>
               if \<not> truthy (verificationToken u)
               then (User, Some \<lparr>status = 400, body = JMessage
                       ''Tu contrasena ya ha sido cambiada anteriormente.''\<rparr>)
               else
                 (case bcrypt_hash w (the newPassword) of
                    None \<Rightarrow>
                      (User, Some \<lparr>status = 500, body = JError
                         ''Error al encriptar la nueva contrasena.''\<rparr>)
                  | Some hashedPassword \<Rightarrow>
                      let User' = save_existing
                            (u\<lparr>password := hashedPassword, verificationToken := None,
                               verificationExpires := None\<rparr>) User
                      in if mail_ok w then
                           (User', Some \<lparr>status = 200, body = JMessage
                              ''Contrasena restablecida exitosamente!''\<rparr>)
                         else (User', None)))"

section \<open>Predicates on codes and collections\<close>


text \<open>
  What MongoDB and \<open>generateUniqueVerificationCode\<close> maintain in the \<open>User\<close> collection
  when requests are handled one after the other: no two documents share an \<open>_id\<close>, and no
  two documents hold the same verification code.
\<close>

definition wf_store :: "user list \<Rightarrow> bool" where
  "wf_store User =
     (distinct (map u_id User) \<and> distinct (List.map_filter verificationToken User))"

section \<open>Example data\<close>

text \<open>
  An upstream array of 51 items: fifty with one date, followed by one added a second
  later.
\<close>

definition old_item :: item where
  "old_item = \<lparr>name = ''old'', added = 1700000000, stream_id = 1\<rparr>"

definition new_item :: item where
  "new_item = \<lparr>name = ''new'', added = 1700000001, stream_id = 2\<rparr>"

definition upstream51 :: "item list" where
  "upstream51 = replicate 50 old_item @ [new_item]"


definition example_profile :: profile where
  "example_profile =
     \<lparr>p_id = 7, userId = 1, url = ''http://tv.example'', p_username = ''alice'',
      p_password = ''secret'', p_name = ''home''\<rparr>"

definition other_profile :: profile where
  "other_profile =
     \<lparr>p_id = 8, userId = 2, url = ''http://tv.example'', p_username = ''bob'',
      p_password = ''hunter2'', p_name = ''bob tv''\<rparr>"

definition example_profiles :: "profile list" where
  "example_profiles = [example_profile, other_profile]"

definition example_request :: request where
  "example_request =
     \<lparr>x_api_key = Some ''key'', authorization = Some ''Bearer good'', req_user = None,
      query_profile = Some 7, params_profileId = None, query_page = Some 2,
      query_q = Some ''NEW'', params_id = ''5''\<rparr>"

definition authed_request :: request where
  "authed_request = example_request\<lparr>req_user := Some 1\<rparr>"

text \<open>An upstream that answers every request with \<open>upstream51\<close>, and one that is down.\<close>

definition up_api :: upstream where
  "up_api u = Some upstream51"





text \<open>Two users, one with a pending code, and the outside of a handler.\<close>

definition alice :: user where
  "alice =
     \<lparr>u_id = 1, firstName = ''Alice'', lastName = ''Ames'', username = ''alice'',
      email = ''alice@example.org'', password = ''hash1'',
      verificationToken = Some ''123456'', verificationExpires = Some 2000,
      isVerified = False\<rparr>"

definition bob :: user where
  "bob =
     \<lparr>u_id = 2, firstName = ''Bob'', lastName = ''Berg'', username = ''bob'',
      email = ''bob@example.org'', password = ''hash2'',
      verificationToken = None, verificationExpires = None, isVerified = True\<rparr>"

definition example_users :: "user list" where
  "example_users = [alice, bob]"

definition example_world :: world where
  "example_world =
     \<lparr>bcrypt_hash = (\<lambda>p. Some (''hashed:'' @ p)), random_draws = [1 / 2],
      date_now = 1000, new_objectId = 3, mail_ok = True\<rparr>"

definition carol_body :: register_body where
  "carol_body =
     \<lparr>b_username = Some ''carol'', b_password = Some ''pw'', b_email = Some ''carol@example.org'',
      b_firstName = Some ''Carol'', b_lastName = Some ''Cole''\<rparr>"

definition carol :: user where
  "carol =
     \<lparr>u_id = 3, firstName = ''Carol'', lastName = ''Cole'', username = ''carol'',
      email = ''carol@example.org'', password = ''hashed:pw'',
      verificationToken = Some ''550000'', verificationExpires = Some 601000,
      isVerified = False\<rparr>"

section \<open>Pagination\<close>

text \<open>
  The positions a slice takes, and what the pages of a list are for page numbers from 1
  on: page \<open>i + 1\<close> holds the positions \<open>10 * i\<close> to \<open>10 * i + 9\<close> that exist.
\<close>

lemma slice_bounds_le: "slice_bounds n s e = (k, f) \<Longrightarrow> k \<le> f \<and> f \<le> n"
  unfolding slice_bounds_def Let_def by (cases "s < 0"; cases "e < 0"; simp; linarith)

lemma take_drop_nth: "k + m \<le> length xs \<Longrightarrow> take m (drop k xs) = map ((!) xs) [k..<k + m]"
  by (simp add: list_eq_iff_nth_eq)

lemma js_slice_positions:
  "js_slice xs s e = map ((!) xs) (slice_positions (length xs) s e)"
proof -
  obtain k f where b: "slice_bounds (length xs) s e = (k, f)" by (cases "slice_bounds (length xs) s e")
  then have "k \<le> f" "f \<le> length xs" using slice_bounds_le by blast+
  then show ?thesis using b take_drop_nth [of k "f - k" xs]
    by (simp add: js_slice_def slice_positions_def)
qed

lemma page_bounds_pos:
  "1 \<le> p \<Longrightarrow> slice_bounds n ((p - 1) * limit) (p * limit) = (min (nat ((p - 1) * 10)) n, min (nat (p * 10)) n)"
  unfolding slice_bounds_def limit_def Let_def by simp linarith

lemma page_positions_disjoint_lt:
  assumes "1 \<le> p" "p < q"
  shows "set (page_positions n p) \<inter> set (page_positions n q) = {}"
proof -
  have "nat (p * 10) \<le> nat ((q - 1) * 10)" using assms by simp
  then have "min (nat (p * 10)) n \<le> min (nat ((q - 1) * 10)) n" by simp
  moreover have "1 \<le> q" using assms by simp
  ultimately show ?thesis using assms(1)
    by (auto simp: page_positions_def slice_positions_def page_bounds_pos)
qed

lemma page_positions_disjoint:
  assumes "1 \<le> p" "1 \<le> q" "p \<noteq> q"
  shows "set (page_positions n p) \<inter> set (page_positions n q) = {}"
proof (cases "p < q")
  case True
  then show ?thesis using assms page_positions_disjoint_lt by blast
next
  case False
  then have "q < p" using assms by simp
  then show ?thesis using assms page_positions_disjoint_lt [of q p n] by blast
qed

lemma paginate_positions: "paginate xs p = map ((!) xs) (page_positions (length xs) p)"
  by (simp add: paginate_def page_positions_def js_slice_positions)

lemma paginate_nat:
  "paginate xs (int (Suc i)) = take 10 (drop (10 * i) xs)"
proof -
  have "slice_bounds (length xs) ((int (Suc i) - 1) * limit) (int (Suc i) * limit)
      = (min (nat ((int (Suc i) - 1) * 10)) (length xs), min (nat (int (Suc i) * 10)) (length xs))"
    by (rule page_bounds_pos) simp
  moreover have "nat ((int (Suc i) - 1) * 10) = 10 * i" by simp
  moreover have "nat (int (Suc i) * 10) = 10 * i + 10" by (simp add: nat_mult_distrib)
  ultimately have b: "slice_bounds (length xs) ((int (Suc i) - 1) * limit) (int (Suc i) * limit)
      = (min (10 * i) (length xs), min (10 * i + 10) (length xs))" by simp
  show ?thesis unfolding paginate_def js_slice_def b
    by (simp add: min_def)
qed

lemma concat_pages_take:
  "concat (map (\<lambda>i. paginate xs (int i)) [1..<Suc m]) = take (10 * m) xs"
proof (induction m)
  case 0
  then show ?case by simp
next
  case (Suc m)
  have "take (10 * Suc m) xs = take (10 * m) xs @ take 10 (drop (10 * m) xs)"
    by (simp add: take_add [symmetric] add.commute)
  moreover have "[1..<Suc (Suc m)] = [1..<Suc m] @ [Suc m]" by simp
  ultimately show ?case using Suc by (simp only: map_append concat_append paginate_nat list.map concat.simps append_Nil2)
qed

lemma totalPages_div: "totalPages_of n = int ((n + 9) div 10)"
proof -
  have "\<lceil>real n / 10\<rceil> = \<lceil>real_of_int (int n) / real_of_int 10\<rceil>" by simp
  also have "\<dots> = - (- int n div 10)" by (rule ceiling_divide_eq_div)
  also have "\<dots> = int ((n + 9) div 10)" by linarith
  finally show ?thesis by (simp add: totalPages_of_def limit_def)
qed

lemma totalPages_covers: "length xs \<le> 10 * nat (totalPages_of (length xs))"
  by (simp add: totalPages_div)

lemma concat_all_pages:
  "concat (map (\<lambda>i. paginate xs (int i)) [1..<Suc (nat (totalPages_of (length xs)))]) = xs"
  using totalPages_covers [of xs] by (simp only: concat_pages_take take_all)

lemma slice_window:
  "slice_bounds n s (s + w) = (k, f) \<Longrightarrow> 0 \<le> w \<Longrightarrow> f - k \<le> nat w"
  unfolding slice_bounds_def Let_def
  by (cases "s < 0"; cases "s + w < 0"; auto simp: max_def min_def)

lemma length_paginate: "length (paginate xs p) \<le> 10"
proof -
  obtain k f where b: "slice_bounds (length xs) ((p - 1) * limit) ((p - 1) * limit + 10) = (k, f)"
    by (cases "slice_bounds (length xs) ((p - 1) * limit) ((p - 1) * limit + 10)")
  have e: "p * limit = (p - 1) * limit + 10" by (simp add: limit_def algebra_simps)
  have "f - k \<le> nat 10" using slice_window [OF b] by simp
  then show ?thesis unfolding paginate_def js_slice_def e b by simp
qed

lemma js_slice_0: "0 \<le> n \<Longrightarrow> js_slice xs 0 n = take (nat n) xs"
  by (auto simp: js_slice_def slice_bounds_def Let_def min_def)

text \<open>
  C2, as stated, fails for the page numbers the endpoints accept below 1: \<open>slice\<close> counts a
  negative index from the end of the array, so on a list of 25 items page \<open>-1\<close> is
  \<open>slice(-20, -10)\<close>, the positions 5 to 14, and shares the positions 5 to 9 with page 1.
\<close>

theorem pagination_overlap_counterexample:
  "page_of (Some (- 1)) \<noteq> page_of (Some 1)
   \<and> paginate [0..<25::nat] (page_of (Some (- 1))) = [5..<15]
   \<and> paginate [0..<25::nat] (page_of (Some 1)) = [0..<10]
   \<and> 5 \<in> set (page_positions 25 (page_of (Some (- 1)))) \<inter> set (page_positions 25 (page_of (Some 1)))"
  by (simp add: page_of_def paginate_def page_positions_def js_slice_def slice_positions_def
        slice_bounds_def limit_def Let_def)

text \<open>
  C2 (amended): for two distinct page numbers that are both at least 1, the two slices
  are the items at two disjoint lists of positions, and the slices of the pages 1, 2, ...,
  \<open>totalPages\<close> concatenated in this order are the whole list.
\<close>

theorem pagination_slices_partition:
  assumes "1 \<le> page_of a" and "1 \<le> page_of b" and "page_of a \<noteq> page_of b"
  shows "paginate xs (page_of a) = map ((!) xs) (page_positions (length xs) (page_of a))
       \<and> paginate xs (page_of b) = map ((!) xs) (page_positions (length xs) (page_of b))
       \<and> set (page_positions (length xs) (page_of a)) \<inter> set (page_positions (length xs) (page_of b)) = {}
       \<and> concat (map (\<lambda>i. paginate xs (page_of (Some (int i)))) [1..<Suc (nat (totalPages_of (length xs)))]) = xs"
proof -
  have "map (\<lambda>i. paginate xs (page_of (Some (int i)))) [1..<Suc (nat (totalPages_of (length xs)))]
      = map (\<lambda>i. paginate xs (int i)) [1..<Suc (nat (totalPages_of (length xs)))]"
    by (rule map_cong) (auto simp: page_of_def)
  then have c: "concat (map (\<lambda>i. paginate xs (page_of (Some (int i)))) [1..<Suc (nat (totalPages_of (length xs)))]) = xs"
    by (simp only: concat_all_pages)
  have d: "set (page_positions (length xs) (page_of a)) \<inter> set (page_positions (length xs) (page_of b)) = {}"
    using assms by (rule page_positions_disjoint)
  show ?thesis using c d paginate_positions by blast
qed

theorem pagination_slices_partition_witness:
  "1 \<le> page_of (Some 2) \<and> 1 \<le> page_of (Some 3) \<and> page_of (Some 2) \<noteq> page_of (Some 3)
   \<and> paginate [0..<25::nat] (page_of (Some 2)) = [10..<20]
   \<and> paginate [0..<25::nat] (page_of (Some 3)) = [20..<25]
   \<and> set (page_positions (length [0..<25::nat]) (page_of (Some 2)))
       \<inter> set (page_positions (length [0..<25::nat]) (page_of (Some 3))) = {}
   \<and> concat (map (\<lambda>i. paginate [0..<25::nat] (page_of (Some (int i))))
         [1..<Suc (nat (totalPages_of (length [0..<25::nat])))]) = [0..<25::nat]"
proof -
  have h: "1 \<le> page_of (Some 2)" "1 \<le> page_of (Some 3)" "page_of (Some 2) \<noteq> page_of (Some 3)"
    by (simp_all add: page_of_def)
  have e: "paginate [0..<25::nat] (page_of (Some 2)) = [10..<20]"
     "paginate [0..<25::nat] (page_of (Some 3)) = [20..<25]"
    by (simp_all add: page_of_def paginate_def js_slice_def slice_bounds_def limit_def Let_def)
  from pagination_slices_partition [OF h, of "[0..<25::nat]"]
  have c: "set (page_positions (length [0..<25::nat]) (page_of (Some 2)))
       \<inter> set (page_positions (length [0..<25::nat]) (page_of (Some 3))) = {}"
    "concat (map (\<lambda>i. paginate [0..<25::nat] (page_of (Some (int i))))
         [1..<Suc (nat (totalPages_of (length [0..<25::nat])))]) = [0..<25::nat]"
    by blast+
  show ?thesis using h e c by blast
qed

section \<open>The recent lists\<close>

lemma set_js_slice: "set (js_slice xs s e) \<subseteq> set xs"
proof -
  obtain k f where "slice_bounds (length xs) s e = (k, f)" by (cases "slice_bounds (length xs) s e")
  then have "js_slice xs s e = take (f - k) (drop k xs)" by (simp add: js_slice_def)
  then show ?thesis using set_take_subset set_drop_subset by fastforce
qed

lemma set_paginate: "set (paginate xs p) \<subseteq> set xs"
  by (simp add: paginate_def set_js_slice)

lemma series_recent_data_subset: "set (data (series_recent_body xs pg)) \<subseteq> set (take 50 xs)"
  using set_paginate [of "sort_added_desc (js_slice xs 0 50)" pg]
  by (simp add: series_recent_body_def Let_def sort_added_desc_def js_slice_0)

lemma live_recent_data_subset: "set (data (live_recent_body xs pg)) \<subseteq> set (take 50 xs)"
  using set_paginate [of "sort_added_desc (js_slice xs 0 50)" pg]
  by (simp add: live_recent_body_def Let_def sort_added_desc_def js_slice_0)

lemma insort_replicate: "insort_key f x (replicate n x) = replicate (Suc n) x"
  by (cases n) simp_all

lemma sort_replicate: "sort_key f (replicate n x) = replicate n x"
proof (induction n)
  case 0
  then show ?case by simp
next
  case (Suc n)
  then show ?case by (simp only: replicate_Suc sort_key_simps insort_replicate)
qed

lemma sort_replicate_snoc:
  assumes "f y < f x"
  shows "sort_key f (replicate n x @ [y]) = y # replicate n x"
proof (induction n)
  case 0
  then show ?case by simp
next
  case (Suc n)
  have "sort_key f (replicate (Suc n) x @ [y]) = insort_key f x (sort_key f (replicate n x @ [y]))"
    by simp
  also have "\<dots> = insort_key f x (y # replicate n x)" by (simp only: Suc)
  also have "\<dots> = y # insort_key f x (replicate n x)" using assms by (simp add: not_le [symmetric])
  also have "\<dots> = y # replicate (Suc n) x" by (simp only: insort_replicate)
  finally show ?case .
qed

lemma sort_upstream51: "sort_added_desc upstream51 = new_item # replicate 50 old_item"
  unfolding sort_added_desc_def upstream51_def
  by (rule sort_replicate_snoc) (simp add: old_item_def new_item_def)

text \<open>
  C1 at the failing input \<open>upstream51\<close>: its last item is the most recently added one.
  /vods/recent serves it first; /series/recent and /live/recent serve it on no page, and
  their first page holds ten of the older items.
\<close>

theorem recent_series_live_truncate_before_sorting:
  "added old_item < added new_item
   \<and> new_item \<in> set upstream51
   \<and> hd (data (vods_recent_body upstream51 (page_of (Some 1)))) = new_item
   \<and> (\<forall>p. new_item \<notin> set (data (series_recent_body upstream51 (page_of p))))
   \<and> (\<forall>p. new_item \<notin> set (data (live_recent_body upstream51 (page_of p))))
   \<and> data (series_recent_body upstream51 (page_of (Some 1))) = replicate 10 old_item
   \<and> data (live_recent_body upstream51 (page_of (Some 1))) = replicate 10 old_item"
proof -
  have t: "take 50 upstream51 = replicate 50 old_item" by (simp add: upstream51_def)
  have n: "new_item \<notin> set (replicate 50 old_item)" by (simp add: old_item_def new_item_def)
  have s: "sort_added_desc (replicate 50 old_item) = replicate 50 old_item"
    unfolding sort_added_desc_def by (rule sort_replicate)
  have v: "hd (data (vods_recent_body upstream51 (page_of (Some 1)))) = new_item"
    by (simp add: vods_recent_body_def Let_def sort_upstream51 js_slice_0 page_of_def
          paginate_def js_slice_def slice_bounds_def limit_def)
  have p1: "paginate (replicate 50 old_item) 1 = replicate 10 old_item"
    by (simp add: paginate_def js_slice_def slice_bounds_def limit_def Let_def)
  have d: "data (series_recent_body upstream51 (page_of (Some 1))) = replicate 10 old_item"
     "data (live_recent_body upstream51 (page_of (Some 1))) = replicate 10 old_item"
    by (simp_all add: series_recent_body_def live_recent_body_def Let_def js_slice_0 t s p1 page_of_def)
  have a: "added old_item < added new_item" by (simp add: old_item_def new_item_def)
  have m: "new_item \<in> set upstream51" by (simp add: upstream51_def)
  have "\<And>p. new_item \<notin> set (data (series_recent_body upstream51 (page_of p)))"
    using series_recent_data_subset [of upstream51] n t by auto
  moreover have "\<And>p. new_item \<notin> set (data (live_recent_body upstream51 (page_of p)))"
    using live_recent_data_subset [of upstream51] n t by auto
  ultimately show ?thesis using v d a m by blast
qed

section \<open>Content handlers\<close>

text \<open>What a content handler that answered 200 did: one upstream request, which succeeded.\<close>

lemma fetch_and_respond_200:
  assumes "fetch_and_respond api Profile req action extra msg respond = (calls, Some r)"
    and "status r = 200"
  shows "\<exists>u d. calls = [u] \<and> api u = Some d \<and> body r = respond d"
  using assms
  by (auto simp: fetch_and_respond_def getFromApi_def error500_def json200_def Let_def
      split: sum.splits option.splits)

lemma totalPages_of_ceiling: "totalPages_of n = \<lceil>real n / 10\<rceil>"
  by (simp add: totalPages_of_def limit_def)

lemma list_body_meta:
  "total (list_body d pg) = length d
   \<and> totalPages (list_body d pg) = \<lceil>real (total (list_body d pg)) / 10\<rceil>
   \<and> length (data (list_body d pg)) \<le> 10 \<and> page (list_body d pg) = pg"
  by (simp add: list_body_def totalPages_of_ceiling length_paginate)

lemma vods_recent_body_meta:
  "total (vods_recent_body d pg) = min 50 (length d)
   \<and> totalPages (vods_recent_body d pg) = \<lceil>real (total (vods_recent_body d pg)) / 10\<rceil>
   \<and> length (data (vods_recent_body d pg)) \<le> 10 \<and> page (vods_recent_body d pg) = pg"
  by (simp add: vods_recent_body_def Let_def totalPages_of_ceiling length_paginate js_slice_0
        sort_added_desc_def min.commute)

lemma series_recent_body_meta:
  "total (series_recent_body d pg) = min 50 (length d)
   \<and> totalPages (series_recent_body d pg) = \<lceil>real (total (series_recent_body d pg)) / 10\<rceil>
   \<and> length (data (series_recent_body d pg)) \<le> 10 \<and> page (series_recent_body d pg) = pg"
  by (simp add: series_recent_body_def Let_def totalPages_of_ceiling length_paginate js_slice_0
        min.commute)

lemma live_recent_body_meta:
  "total (live_recent_body d pg) = min 50 (length d)
   \<and> totalPages (live_recent_body d pg) = \<lceil>real (total (live_recent_body d pg)) / 10\<rceil>
   \<and> length (data (live_recent_body d pg)) \<le> 10 \<and> page (live_recent_body d pg) = pg"
  by (simp add: live_recent_body_def Let_def totalPages_of_ceiling length_paginate js_slice_0
        min.commute)

lemma paged_handler_meta:
  assumes "fetch_and_respond api Profile req action extra msg (\<lambda>d. JPage (g d)) = (calls, Some r)"
    and "status r = 200"
    and "\<And>d. P d (g d)"
  shows "\<exists>b u d. body r = JPage b \<and> calls = [u] \<and> api u = Some d \<and> P d b"
  using fetch_and_respond_200 [OF assms(1,2)] assms(3) by auto

text \<open>
  C10: a paginated list endpoint that answers 200 made one upstream request, and its body
  has \<open>total\<close> equal to the length of the list it paginates (the upstream array, or its
  first 50 items at most for the recent lists), \<open>totalPages\<close> equal to the ceiling of
  \<open>total / 10\<close>, and at most 10 items in \<open>data\<close>.
\<close>

theorem pagination_metadata:
  assumes "ep \<in> {VodsRecent, Vods, VodsCategory, SeriesRecent, Series, SeriesCategory,
                  LiveRecent, Live, LiveCategory}"
    and "content_handler api Profile ep req = (calls, Some r)"
    and "status r = 200"
  shows "\<exists>b u d. body r = JPage b \<and> calls = [u] \<and> api u = Some d
           \<and> total b = (if ep \<in> {VodsRecent, SeriesRecent, LiveRecent}
                        then min 50 (length d) else length d)
           \<and> totalPages b = \<lceil>real (total b) / 10\<rceil>
           \<and> length (data b) \<le> 10
           \<and> page b = page_of (query_page req)"
proof -
  let ?pg = "page_of (query_page req)"
  let ?P = "\<lambda>recent d b. total b = (if recent then min 50 (length d) else length d)
      \<and> totalPages b = \<lceil>real (total b) / 10\<rceil> \<and> length (data b) \<le> 10 \<and> page b = ?pg"
  have l: "\<And>d. ?P False d (list_body d ?pg)"
    using list_body_meta by simp
  have v: "\<And>d. ?P True d (vods_recent_body d ?pg)"
    using vods_recent_body_meta by simp
  have s: "\<And>d. ?P True d (series_recent_body d ?pg)"
    using series_recent_body_meta by simp
  have li: "\<And>d. ?P True d (live_recent_body d ?pg)"
    using live_recent_body_meta by simp
  note L = paged_handler_meta [where g = "\<lambda>d. list_body d ?pg" and P = "?P False", OF _ assms(3) l]
  have "\<exists>b u d. body r = JPage b \<and> calls = [u] \<and> api u = Some d
          \<and> ?P (ep \<in> {VodsRecent, SeriesRecent, LiveRecent}) d b"
  proof (cases ep)
    case VodsRecent
    then show ?thesis
      using assms(2) paged_handler_meta [where g = "\<lambda>d. vods_recent_body d ?pg" and P = "?P True", OF _ assms(3) v]
      by simp
  next
    case Vods
    then show ?thesis using assms(2) L by simp
  next
    case VodsCategory
    then show ?thesis using assms(2) L by simp
  next
    case SeriesRecent
    then show ?thesis
      using assms(2) paged_handler_meta [where g = "\<lambda>d. series_recent_body d ?pg" and P = "?P True", OF _ assms(3) s]
      by simp
  next
    case Series
    then show ?thesis using assms(2) L by simp
  next
    case SeriesCategory
    then show ?thesis using assms(2) L by simp
  next
    case LiveRecent
    then show ?thesis
      using assms(2) paged_handler_meta [where g = "\<lambda>d. live_recent_body d ?pg" and P = "?P True", OF _ assms(3) li]
      by simp
  next
    case Live
    then show ?thesis using assms(2) L by simp
  next
    case LiveCategory
    then show ?thesis using assms(2) L by simp
  qed (use assms(1) in simp_all)
  then show ?thesis by blast
qed

theorem pagination_metadata_witness:
  "SeriesRecent \<in> {VodsRecent, Vods, VodsCategory, SeriesRecent, Series, SeriesCategory,
                  LiveRecent, Live, LiveCategory}
   \<and> content_handler up_api example_profiles SeriesRecent authed_request
       = ([api_url ''http://tv.example'' ''alice'' ''secret'' ''get_series'' []],
          Some \<lparr>status = 200, body = JPage (series_recent_body upstream51 2)\<rparr>)
   \<and> (\<exists>b u d. JPage (series_recent_body upstream51 2) = JPage b
           \<and> [api_url ''http://tv.example'' ''alice'' ''secret'' ''get_series'' []] = [u]
           \<and> up_api u = Some d
           \<and> total b = 50 \<and> length d = 51
           \<and> totalPages b = 5
           \<and> length (data b) \<le> 10
           \<and> page b = 2)"
proof -
  let ?r = "\<lparr>status = 200, body = JPage (series_recent_body upstream51 2)\<rparr>"
  let ?u = "api_url ''http://tv.example'' ''alice'' ''secret'' ''get_series'' []"
  have m: "SeriesRecent \<in> {VodsRecent, Vods, VodsCategory, SeriesRecent, Series, SeriesCategory,
                  LiveRecent, Live, LiveCategory}" by simp
  have h: "content_handler up_api example_profiles SeriesRecent authed_request = ([?u], Some ?r)"
    by (simp add: fetch_and_respond_def getProfileParams_def authed_request_def example_request_def
          profileId_of_def findOne_profile_def example_profiles_def example_profile_def
          getFromApi_def up_api_def json200_def page_of_def Let_def)
  have s: "status ?r = 200" by simp
  from pagination_metadata [OF m h s]
  obtain b u d where c: "body ?r = JPage b" "[?u] = [u]" "up_api u = Some d"
      "total b = (if SeriesRecent \<in> {VodsRecent, SeriesRecent, LiveRecent}
                        then min 50 (length d) else length d)"
      "totalPages b = \<lceil>real (total b) / 10\<rceil>" "length (data b) \<le> 10"
      "page b = page_of (query_page authed_request)"
    by blast
  have d: "d = upstream51" using c(3) by (simp add: up_api_def)
  have "length d = 51" unfolding d by (simp add: upstream51_def)
  moreover from this have "total b = 50" using c(4) by simp
  moreover from this have "totalPages b = 5" using c(5) by simp
  moreover have "page b = 2" using c(7) by (simp add: authed_request_def example_request_def page_of_def)
  ultimately show ?thesis using m h c(1,2,3,6) by (simp only: response.simps) blast
qed

section \<open>The authentication gate\<close>






section \<open>Profile ownership\<close>

lemma findOne_profile_Some:
  "findOne_profile Profile i u = Some p \<Longrightarrow> p \<in> set Profile \<and> p_id p = i \<and> userId p = u"
  unfolding findOne_profile_def by (auto simp: find_Some_iff)

lemma findOne_profile_foreign:
  "\<forall>p\<in>set Profile. p_id p = i \<longrightarrow> userId p \<noteq> u \<Longrightarrow> findOne_profile Profile i u = None"
  unfolding findOne_profile_def by (auto simp: find_None_iff)

lemma getProfileParams_Inr:
  "getProfileParams req Profile = Inr p \<Longrightarrow>
     p \<in> set Profile \<and> Some (userId p) = req_user req \<and> Some (p_id p) = profileId_of req"
  by (auto simp: getProfileParams_def split: option.splits dest: findOne_profile_Some)

lemma fetch_and_respond_calls:
  assumes "c \<in> set (fst (fetch_and_respond api Profile req action extra msg respond))"
  shows "\<exists>p. getProfileParams req Profile = Inr p
           \<and> c = api_url (url p) (p_username p) (p_password p) action extra"
  using assms
  by (auto simp: fetch_and_respond_def getFromApi_def Let_def split: sum.splits option.splits)

lemma search_handler_calls:
  assumes "c \<in> set (fst (search_handler api Profile req))"
  shows "\<exists>p action. getProfileParams req Profile = Inr p
           \<and> c = api_url (url p) (p_username p) (p_password p) action []"
  using assms
  by (auto simp: search_handler_def getFromApi_def Let_def
      split: sum.splits option.splits if_splits)

lemma content_handler_calls:
  assumes "c \<in> set (fst (content_handler api Profile ep req))"
  shows "\<exists>p action extra. getProfileParams req Profile = Inr p
           \<and> c = api_url (url p) (p_username p) (p_password p) action extra"
proof (cases ep)
  case Search
  then show ?thesis using assms search_handler_calls by fastforce
qed (use assms fetch_and_respond_calls in fastforce)+

text \<open>
  C7: GET /profiles returns only profiles of the authenticated user, GET
  /profiles/:profileId returns 404 or the requested profile of the authenticated user, and
  \<open>getProfileParams\<close> returns a profile of the authenticated user or throws. For a profile
  id that only other users have, the first answers 404 and the second throws
  \<open>Perfil no encontrado o no autorizado\<close>; every upstream URL a content handler requests
  is built from the credentials of a profile of the authenticated user.
\<close>

theorem profile_ownership:
  "(get_profiles_handler Profile req = (calls, Some r) \<longrightarrow>
      (\<exists>ps. body r = JProfiles ps \<and> set ps \<subseteq> set Profile
            \<and> (\<forall>p\<in>set ps. Some (userId p) = req_user req)))
   \<and> (get_profile_handler Profile req = (calls, Some r) \<longrightarrow>
      r = \<lparr>status = 404, body = JError ''Perfil no encontrado''\<rparr>
      \<or> (\<exists>p. r = \<lparr>status = 200, body = JProfile p\<rparr> \<and> p \<in> set Profile
             \<and> Some (userId p) = req_user req \<and> Some (p_id p) = params_profileId req))
   \<and> (getProfileParams req Profile = Inr p \<longrightarrow>
      p \<in> set Profile \<and> Some (userId p) = req_user req \<and> Some (p_id p) = profileId_of req)
   \<and> (req_user req = Some u \<and> params_profileId req = Some i
        \<and> (\<forall>p\<in>set Profile. p_id p = i \<longrightarrow> userId p \<noteq> u) \<longrightarrow>
      get_profile_handler Profile req
        = ([], Some \<lparr>status = 404, body = JError ''Perfil no encontrado''\<rparr>))
   \<and> (req_user req = Some u \<and> profileId_of req = Some i
        \<and> (\<forall>p\<in>set Profile. p_id p = i \<longrightarrow> userId p \<noteq> u) \<longrightarrow>
      getProfileParams req Profile = Inl ''Perfil no encontrado o no autorizado'')
   \<and> (\<forall>c\<in>set (fst (content_handler api Profile ep req)).
        \<exists>p action extra. p \<in> set Profile \<and> Some (userId p) = req_user req
          \<and> Some (p_id p) = profileId_of req
          \<and> c = api_url (url p) (p_username p) (p_password p) action extra)"
proof -
  have 1: "get_profiles_handler Profile req = (calls, Some r) \<longrightarrow>
      (\<exists>ps. body r = JProfiles ps \<and> set ps \<subseteq> set Profile
            \<and> (\<forall>p\<in>set ps. Some (userId p) = req_user req))"
    by (auto simp: get_profiles_handler_def find_profiles_def split: option.splits)
  have 2: "get_profile_handler Profile req = (calls, Some r) \<longrightarrow>
      r = \<lparr>status = 404, body = JError ''Perfil no encontrado''\<rparr>
      \<or> (\<exists>p. r = \<lparr>status = 200, body = JProfile p\<rparr> \<and> p \<in> set Profile
             \<and> Some (userId p) = req_user req \<and> Some (p_id p) = params_profileId req)"
    by (auto simp: get_profile_handler_def split: option.splits dest: findOne_profile_Some)
  have 3: "getProfileParams req Profile = Inr p \<longrightarrow>
      p \<in> set Profile \<and> Some (userId p) = req_user req \<and> Some (p_id p) = profileId_of req"
    using getProfileParams_Inr by blast
  have 4: "req_user req = Some u \<and> params_profileId req = Some i
        \<and> (\<forall>p\<in>set Profile. p_id p = i \<longrightarrow> userId p \<noteq> u) \<longrightarrow>
      get_profile_handler Profile req
        = ([], Some \<lparr>status = 404, body = JError ''Perfil no encontrado''\<rparr>)"
    by (auto simp: get_profile_handler_def findOne_profile_foreign)
  have 5: "req_user req = Some u \<and> profileId_of req = Some i
        \<and> (\<forall>p\<in>set Profile. p_id p = i \<longrightarrow> userId p \<noteq> u) \<longrightarrow>
      getProfileParams req Profile = Inl ''Perfil no encontrado o no autorizado''"
    by (auto simp: getProfileParams_def findOne_profile_foreign)
  have 6: "\<forall>c\<in>set (fst (content_handler api Profile ep req)).
        \<exists>p action extra. p \<in> set Profile \<and> Some (userId p) = req_user req
          \<and> Some (p_id p) = profileId_of req
          \<and> c = api_url (url p) (p_username p) (p_password p) action extra"
    using content_handler_calls getProfileParams_Inr by meson
  show ?thesis using 1 2 3 4 5 6 by blast
qed

theorem profile_ownership_witness:
  "req_user (authed_request\<lparr>query_profile := Some 8, params_profileId := Some 8\<rparr>) = Some 1
   \<and> userId other_profile = 2 \<and> p_id other_profile = 8 \<and> other_profile \<in> set example_profiles
   \<and> get_profile_handler example_profiles
         (authed_request\<lparr>query_profile := Some 8, params_profileId := Some 8\<rparr>)
       = ([], Some \<lparr>status = 404, body = JError ''Perfil no encontrado''\<rparr>)
   \<and> getProfileParams (authed_request\<lparr>query_profile := Some 8, params_profileId := Some 8\<rparr>)
         example_profiles
       = Inl ''Perfil no encontrado o no autorizado''
   \<and> getProfileParams authed_request example_profiles = Inr example_profile
   \<and> Some (userId example_profile) = req_user authed_request"
proof -
  let ?fr = "authed_request\<lparr>query_profile := Some 8, params_profileId := Some 8\<rparr>"
  have u: "req_user ?fr = Some 1" by (simp add: authed_request_def)
  have i: "params_profileId ?fr = Some 8" "profileId_of ?fr = Some 8"
    by (simp_all add: profileId_of_def)
  have f: "\<forall>p\<in>set example_profiles. p_id p = 8 \<longrightarrow> userId p \<noteq> 1"
    by (simp add: example_profiles_def example_profile_def other_profile_def)
  have o: "userId other_profile = 2" "p_id other_profile = 8" "other_profile \<in> set example_profiles"
    by (simp_all add: other_profile_def example_profiles_def)
  have g: "getProfileParams authed_request example_profiles = Inr example_profile"
    by (simp add: getProfileParams_def authed_request_def example_request_def profileId_of_def
          findOne_profile_def example_profiles_def example_profile_def)
  note P = profile_ownership [of example_profiles _ "[]" _ example_profile 1 8 up_api Vods]
  from P [of ?fr] u i f
  have r1: "get_profile_handler example_profiles ?fr
       = ([], Some \<lparr>status = 404, body = JError ''Perfil no encontrado''\<rparr>)"
    and r2: "getProfileParams ?fr example_profiles = Inl ''Perfil no encontrado o no autorizado''"
    by blast+
  from P [of authed_request] g
  have r3: "Some (userId example_profile) = req_user authed_request" by blast
  show ?thesis using u o r1 r2 g r3 by blast
qed

section \<open>Upstream failures\<close>









section \<open>Search\<close>





lemma lower_NEW: "toLowerCase ''NEW'' = ''new''"
  by code_simp




section \<open>Verification codes\<close>







lemma findOne_user_None: "findOne_user P User = None \<longleftrightarrow> (\<forall>u\<in>set User. \<not> P u)"
  by (auto simp: findOne_user_def find_None_iff)

lemma findOne_user_Some: "findOne_user P User = Some u \<Longrightarrow> u \<in> set User \<and> P u"
  by (auto simp: findOne_user_def find_Some_iff)

text \<open>The loop returns the code of the first draw that is not in use.\<close>

lemma generate_Some:
  "generateUniqueVerificationCode User rs = Some code \<Longrightarrow>
     (\<exists>r\<in>set rs. code = random_code r) \<and> (\<forall>u\<in>set User. verificationToken u \<noteq> Some code)"
proof (induction rs)
  case Nil
  then show ?case by simp
next
  case (Cons r rs)
  show ?case
  proof (cases "findOne_user (\<lambda>u. verificationToken u = Some (random_code r)) User")
    case None
    then have "code = random_code r" using Cons.prems by (simp add: Let_def)
    then show ?thesis using None by (auto simp: findOne_user_None)
  next
    case (Some v)
    then have "generateUniqueVerificationCode User rs = Some code"
      using Cons.prems by (simp add: Let_def)
    then show ?thesis using Cons.IH by auto
  qed
qed



lemma deleteOne_email_new:
  "\<forall>v\<in>set User. email v \<noteq> e \<Longrightarrow> email nu = e \<Longrightarrow> deleteOne_email e (User @ [nu]) = User"
  by (induction User) simp_all

lemma save_new_Some:
  "save_new nu User = Some S \<Longrightarrow>
     S = User @ [nu] \<and> (\<forall>v\<in>set User. username v \<noteq> username nu \<and> email v \<noteq> email nu
                            \<and> u_id v \<noteq> u_id nu)"
  by (auto simp: save_new_def list_ex_iff split: if_splits)

text \<open>
  What POST /register leaves behind: the collection as it was and no 201, or the new
  document appended, its code drawn by the loop, and the 201.
\<close>

lemma register_result:
  assumes "register w User b = (User', resp)"
  shows "(User' = User \<and> (\<forall>r. resp = Some r \<longrightarrow> status r \<noteq> 201))
       \<or> (\<exists>code h nu. generateUniqueVerificationCode User (random_draws w) = Some code
              \<and> bcrypt_hash w (the (b_password b)) = Some h
              \<and> truthy (b_username b) \<and> truthy (b_password b) \<and> truthy (b_email b)
              \<and> truthy (b_firstName b) \<and> truthy (b_lastName b)
              \<and> findOne_user (\<lambda>u. username u = the (b_username b)) User = None
              \<and> nu = \<lparr>u_id = new_objectId w, firstName = the (b_firstName b),
                    lastName = the (b_lastName b), username = the (b_username b),
                    email = the (b_email b), password = h, verificationToken = Some code,
                    verificationExpires = Some (date_now w + 10 * 60 * 1000),
                    isVerified = False\<rparr>
              \<and> verificationToken nu = Some code \<and> email nu = the (b_email b)
              \<and> username nu = the (b_username b) \<and> password nu = h \<and> \<not> isVerified nu
              \<and> save_new nu User = Some (User @ [nu]) \<and> mail_ok w
              \<and> User' = User @ [nu] \<and> (\<exists>r. resp = Some r \<and> status r = 201))"
proof (cases "\<not> truthy (b_username b) \<or> \<not> truthy (b_password b) \<or> \<not> truthy (b_email b)
         \<or> \<not> truthy (b_firstName b) \<or> \<not> truthy (b_lastName b)")
  case True
  then show ?thesis using assms by (auto simp: register_def)
next
  case fields: False
  show ?thesis
  proof (cases "findOne_user (\<lambda>u. username u = the (b_username b)) User")
    case (Some a)
    then show ?thesis using assms fields by (auto simp: register_def Let_def)
  next
    case nouser: None
    show ?thesis
    proof (cases "bcrypt_hash w (the (b_password b))")
      case None
      then show ?thesis using assms fields nouser by (auto simp: register_def Let_def)
    next
      case hash: (Some h)
      show ?thesis
      proof (cases "generateUniqueVerificationCode User (random_draws w)")
        case None
        then show ?thesis using assms fields nouser hash by (auto simp: register_def Let_def)
      next
        case code: (Some c)
        let ?nu = "\<lparr>u_id = new_objectId w, firstName = the (b_firstName b),
            lastName = the (b_lastName b), username = the (b_username b),
            email = the (b_email b), password = h, verificationToken = Some c,
            verificationExpires = Some (date_now w + 10 * 60 * 1000), isVerified = False\<rparr>"
        show ?thesis
        proof (cases "save_new ?nu User")
          case None
          then show ?thesis using assms fields nouser hash code
            by (auto simp: register_def Let_def)
        next
          case (Some S)
          then have S: "S = User @ [?nu]" "\<forall>v\<in>set User. email v \<noteq> the (b_email b)"
            using save_new_Some [OF Some] by auto
          show ?thesis
          proof (cases "mail_ok w")
            case True
            then have "User' = User @ [?nu]" "\<exists>r. resp = Some r \<and> status r = 201"
              using assms fields nouser hash code Some S(1) by (auto simp: register_def Let_def)
            then show ?thesis using hash code Some S(1) True fields nouser
              by (intro disjI2 exI [of _ c] exI [of _ h] exI [of _ ?nu]) simp
          next
            case False
            have "deleteOne_email (the (b_email b)) S = User"
              unfolding S(1) by (rule deleteOne_email_new) (use S(2) in simp_all)
            then show ?thesis using assms fields nouser hash code Some False
              by (auto simp: register_def Let_def)
          qed
        qed
      qed
    qed
  qed
qed

lemma resend_result:
  assumes "resend_verification w User mail = (S, resp)"
  shows "S = User \<or> (\<exists>c u. generateUniqueVerificationCode User (random_draws w) = Some c
           \<and> u \<in> set User
           \<and> S = save_existing (u\<lparr>verificationToken := Some c,
                    verificationExpires := Some (date_now w + 10 * 60 * 1000)\<rparr>) User)"
  using assms
  by (auto simp: resend_verification_def Let_def split: if_splits option.splits
      dest: findOne_user_Some)

lemma forgot_result:
  assumes "forgot_password w User mail = (S, resp)"
  shows "S = User \<or> (\<exists>c u. generateUniqueVerificationCode User (random_draws w) = Some c
           \<and> u \<in> set User
           \<and> S = save_existing (u\<lparr>verificationToken := Some c,
                    verificationExpires := Some (date_now w + 10 * 60 * 1000)\<rparr>) User)"
  using assms
  by (auto simp: forgot_password_def Let_def split: if_splits option.splits
      dest: findOne_user_Some)



lemma digit_chars: "digit_char 5 = CHR ''5''" "digit_char 0 = CHR ''0''"
  by code_simp+

lemma digits_550000: "digits 550000 = ''550000''"
  by (simp add: digits.simps digit_chars)

lemma random_code_half: "random_code (1 / 2) = ''550000''"
  by (simp add: random_code_def toString_def digits_550000)

lemma generate_example:
  "generateUniqueVerificationCode example_users [1 / 2] = Some ''550000''"
  by (simp add: random_code_half findOne_user_def example_users_def alice_def bob_def)

lemma register_example:
  "register example_world example_users carol_body
     = (example_users @ [carol],
        Some \<lparr>status = 201, body = JMessage
          ''Usuario registrado exitosamente. Por favor, verifica tu correo para activar tu cuenta.''\<rparr>)"
proof -
  have g: "generateUniqueVerificationCode example_users (random_draws example_world) = Some ''550000''"
    using generate_example by (simp add: example_world_def)
  have f: "findOne_user (\<lambda>u. username u = ''carol'') example_users = None"
    by (simp add: findOne_user_def example_users_def alice_def bob_def)
  have s: "save_new carol example_users = Some (example_users @ [carol])"
    by (simp add: save_new_def example_users_def alice_def bob_def carol_def)
  have c: "\<lparr>u_id = new_objectId example_world, firstName = ''Carol'', lastName = ''Cole'',
             username = ''carol'', email = ''carol@example.org'', password = ''hashed:pw'',
             verificationToken = Some ''550000'',
             verificationExpires = Some (date_now example_world + 600000),
             isVerified = False\<rparr> = carol"
    by (simp add: carol_def example_world_def)
  have h: "bcrypt_hash example_world ''pw'' = Some ''hashed:pw''" "mail_ok example_world"
    by (simp_all add: example_world_def)
  show ?thesis
    by (simp add: register_def carol_body_def truthy_def g f h c s Let_def)
qed


section \<open>Registration\<close>

lemma register_mail_failure:
  assumes "register (w\<lparr>mail_ok := True\<rparr>) User b = (S1, Some r1)" and "status r1 = 201"
  shows "register (w\<lparr>mail_ok := False\<rparr>) User b
           = (User, Some \<lparr>status = 500, body = JError
                ''Error al enviar el correo de verificacion. Tu cuenta no ha sido creada.''\<rparr>)
         \<and> deleteOne_email (the (b_email b)) S1 = User
         \<and> (\<forall>u\<in>set User. email u \<noteq> the (b_email b))
         \<and> (\<exists>nu. S1 = User @ [nu] \<and> email nu = the (b_email b))"
proof -
  let ?w = "w\<lparr>mail_ok := True\<rparr>"
  from register_result [OF assms(1)] assms(2)
  obtain c h nu where code: "generateUniqueVerificationCode User (random_draws w) = Some c"
    and hash: "bcrypt_hash w (the (b_password b)) = Some h"
    and fields: "truthy (b_username b)" "truthy (b_password b)" "truthy (b_email b)"
      "truthy (b_firstName b)" "truthy (b_lastName b)"
    and nouser: "findOne_user (\<lambda>u. username u = the (b_username b)) User = None"
    and nu: "nu = \<lparr>u_id = new_objectId w, firstName = the (b_firstName b),
                    lastName = the (b_lastName b), username = the (b_username b),
                    email = the (b_email b), password = h, verificationToken = Some c,
                    verificationExpires = Some (date_now w + 10 * 60 * 1000),
                    isVerified = False\<rparr>"
    and saved: "save_new nu User = Some (User @ [nu])" and S1: "S1 = User @ [nu]"
    by auto
  have fresh: "\<forall>v\<in>set User. email v \<noteq> the (b_email b)"
    using save_new_Some [OF saved] nu by auto
  have del: "deleteOne_email (the (b_email b)) (User @ [nu]) = User"
    by (rule deleteOne_email_new) (use fresh nu in simp_all)
  have "register (w\<lparr>mail_ok := False\<rparr>) User b
           = (User, Some \<lparr>status = 500, body = JError
                ''Error al enviar el correo de verificacion. Tu cuenta no ha sido creada.''\<rparr>)"
    using fields nouser hash code saved del unfolding nu by (simp add: register_def Let_def)
  then show ?thesis using del fresh S1 nu by auto
qed

text \<open>
  C8: POST /register answers 201 only when the new document was saved and the email was
  sent; after every other outcome the collection is what it was before the request. In
  particular, where the request succeeds when the email is delivered, the same request
  with a failing email has the handler delete the saved document by its email, which
  removes exactly that document, and answer 500 saying that the account was not created.
\<close>

theorem registration_atomic:
  "(register w User b = (S, resp) \<longrightarrow>
      ((\<exists>r. resp = Some r \<and> status r = 201) \<longrightarrow>
          mail_ok w \<and> (\<exists>nu. save_new nu User = Some S \<and> email nu = the (b_email b)
                              \<and> username nu = the (b_username b)))
      \<and> (\<not> (\<exists>r. resp = Some r \<and> status r = 201) \<longrightarrow> S = User))
   \<and> (register (w\<lparr>mail_ok := True\<rparr>) User b = (S1, Some r1) \<and> status r1 = 201 \<longrightarrow>
        register (w\<lparr>mail_ok := False\<rparr>) User b
          = (User, Some \<lparr>status = 500, body = JError
               ''Error al enviar el correo de verificacion. Tu cuenta no ha sido creada.''\<rparr>)
        \<and> deleteOne_email (the (b_email b)) S1 = User
        \<and> (\<exists>nu. S1 = User @ [nu] \<and> email nu = the (b_email b)))"
proof -
  have 1: "register w User b = (S, resp) \<longrightarrow>
      ((\<exists>r. resp = Some r \<and> status r = 201) \<longrightarrow>
          mail_ok w \<and> (\<exists>nu. save_new nu User = Some S \<and> email nu = the (b_email b)
                              \<and> username nu = the (b_username b)))
      \<and> (\<not> (\<exists>r. resp = Some r \<and> status r = 201) \<longrightarrow> S = User)"
  proof
    assume "register w User b = (S, resp)"
    from register_result [OF this]
    show "((\<exists>r. resp = Some r \<and> status r = 201) \<longrightarrow>
          mail_ok w \<and> (\<exists>nu. save_new nu User = Some S \<and> email nu = the (b_email b)
                              \<and> username nu = the (b_username b)))
      \<and> (\<not> (\<exists>r. resp = Some r \<and> status r = 201) \<longrightarrow> S = User)"
      by (elim disjE exE conjE) auto
  qed
  have 2: "register (w\<lparr>mail_ok := True\<rparr>) User b = (S1, Some r1) \<and> status r1 = 201 \<longrightarrow>
        register (w\<lparr>mail_ok := False\<rparr>) User b
          = (User, Some \<lparr>status = 500, body = JError
               ''Error al enviar el correo de verificacion. Tu cuenta no ha sido creada.''\<rparr>)
        \<and> deleteOne_email (the (b_email b)) S1 = User
        \<and> (\<exists>nu. S1 = User @ [nu] \<and> email nu = the (b_email b))"
    using register_mail_failure by blast
  show ?thesis using 1 2 by blast
qed

theorem registration_atomic_witness:
  "register (example_world\<lparr>mail_ok := True\<rparr>) example_users carol_body
     = (example_users @ [carol],
        Some \<lparr>status = 201, body = JMessage
          ''Usuario registrado exitosamente. Por favor, verifica tu correo para activar tu cuenta.''\<rparr>)
   \<and> register (example_world\<lparr>mail_ok := False\<rparr>) example_users carol_body
       = (example_users, Some \<lparr>status = 500, body = JError
            ''Error al enviar el correo de verificacion. Tu cuenta no ha sido creada.''\<rparr>)
   \<and> deleteOne_email (the (b_email carol_body)) (example_users @ [carol]) = example_users
   \<and> mail_ok example_world
   \<and> save_new carol example_users = Some (example_users @ [carol])"
proof -
  let ?r = "\<lparr>status = 201, body = JMessage
          ''Usuario registrado exitosamente. Por favor, verifica tu correo para activar tu cuenta.''\<rparr>"
  have e: "example_world\<lparr>mail_ok := True\<rparr> = example_world" by (simp add: example_world_def)
  have a: "register (example_world\<lparr>mail_ok := True\<rparr>) example_users carol_body
     = (example_users @ [carol], Some ?r)"
    unfolding e by (rule register_example)
  have s: "status ?r = 201" by simp
  from registration_atomic [of example_world example_users carol_body "example_users @ [carol]"
      "Some ?r" "example_users @ [carol]" ?r] a s
  have c: "register (example_world\<lparr>mail_ok := False\<rparr>) example_users carol_body
       = (example_users, Some \<lparr>status = 500, body = JError
            ''Error al enviar el correo de verificacion. Tu cuenta no ha sido creada.''\<rparr>)"
    "deleteOne_email (the (b_email carol_body)) (example_users @ [carol]) = example_users"
    by blast+
  have m: "mail_ok example_world" by (simp add: example_world_def)
  have v: "save_new carol example_users = Some (example_users @ [carol])"
    by (simp add: save_new_def example_users_def alice_def bob_def carol_def)
  show ?thesis using a c m v by blast
qed

section \<open>Single use of verification codes\<close>

lemma set_map_filter_iff: "t \<in> set (List.map_filter f xs) \<longleftrightarrow> (\<exists>x\<in>set xs. f x = Some t)"
  by (induction xs) (auto split: option.splits)












section \<open>Unique ids and unique codes are kept\<close>

lemma map_id_save_existing: "map u_id (save_existing u' User) = map u_id User"
  by (induction User) simp_all

lemma tokens_save_existing_subset:
  "set (List.map_filter verificationToken (save_existing u' User))
     \<subseteq> set (List.map_filter verificationToken User) \<union> set_option (verificationToken u')"
  by (induction User) (auto split: option.splits)

lemma distinct_tokens_save_existing:
  assumes "distinct (List.map_filter verificationToken User)"
    and "\<forall>c. verificationToken u' = Some c \<longrightarrow> c \<notin> set (List.map_filter verificationToken User)"
  shows "distinct (List.map_filter verificationToken (save_existing u' User))"
  using assms
proof (induction User)
  case Nil
  then show ?case by simp
next
  case (Cons v vs)
  have d: "distinct (List.map_filter verificationToken vs)"
    using Cons.prems(1) by (auto split: option.splits)
  have fresh: "\<forall>c. verificationToken u' = Some c \<longrightarrow> c \<notin> set (List.map_filter verificationToken vs)"
    using Cons.prems(2) by (auto split: option.splits)
  show ?case
  proof (cases "u_id v = u_id u'")
    case True
    then show ?thesis using d fresh by (auto split: option.splits)
  next
    case False
    show ?thesis
    proof (cases "verificationToken v")
      case None
      then show ?thesis using False Cons.IH [OF d fresh] by simp
    next
      case (Some t)
      have "t \<notin> set (List.map_filter verificationToken vs)" using Cons.prems(1) Some by simp
      moreover have "verificationToken u' \<noteq> Some t" using Cons.prems(2) Some by auto
      ultimately have "t \<notin> set (List.map_filter verificationToken (save_existing u' vs))"
        using tokens_save_existing_subset [of u' vs] by auto
      then show ?thesis using False Some Cons.IH [OF d fresh] by simp
    qed
  qed
qed

lemma wf_store_save_existing:
  assumes "wf_store User"
    and "\<forall>c. verificationToken u' = Some c \<longrightarrow> (\<forall>v\<in>set User. verificationToken v \<noteq> Some c)"
  shows "wf_store (save_existing u' User)"
proof -
  have "\<forall>c. verificationToken u' = Some c \<longrightarrow> c \<notin> set (List.map_filter verificationToken User)"
    using assms(2) by (auto simp: set_map_filter_iff)
  then show ?thesis
    using assms(1) distinct_tokens_save_existing by (simp add: wf_store_def map_id_save_existing)
qed

lemma map_filter_snoc:
  "List.map_filter f (xs @ [y]) = List.map_filter f xs @ (case f y of None \<Rightarrow> [] | Some t \<Rightarrow> [t])"
  by (induction xs) (auto split: option.splits)

lemma wf_store_append:
  assumes "wf_store User" and "\<forall>v\<in>set User. u_id v \<noteq> u_id nu"
    and "verificationToken nu = Some c" and "\<forall>v\<in>set User. verificationToken v \<noteq> Some c"
  shows "wf_store (User @ [nu])"
proof -
  have "c \<notin> set (List.map_filter verificationToken User)"
    using assms(4) by (auto simp: set_map_filter_iff)
  moreover have "u_id nu \<notin> u_id ` set User" using assms(2) by auto
  ultimately show ?thesis using assms(1,3) by (simp add: wf_store_def map_filter_snoc)
qed

text \<open>
  Each of the five account handlers that write to the collection keeps its ids and its
  codes unique.
\<close>

theorem wf_store_preserved:
  assumes "wf_store User"
    and "register w User b = (S, resp) \<or> verify w User code = (S, resp)
         \<or> resend_verification w User mail = (S, resp) \<or> forgot_password w User mail = (S, resp)
         \<or> reset_password w User uid pw = (S, resp)"
  shows "wf_store S"
proof -
  have 1: "wf_store S" if "register w User b = (S, resp)"
  proof -
    from register_result [OF that]
    consider "S = User"
      | c nu where "generateUniqueVerificationCode User (random_draws w) = Some c"
          "verificationToken nu = Some c" "save_new nu User = Some (User @ [nu])" "S = User @ [nu]"
      by blast
    then show ?thesis
    proof cases
      case 1
      then show ?thesis using assms(1) by simp
    next
      case 2
      have "\<forall>v\<in>set User. verificationToken v \<noteq> Some c" using generate_Some [OF 2(1)] by blast
      moreover have "\<forall>v\<in>set User. u_id v \<noteq> u_id nu" using save_new_Some [OF 2(3)] by blast
      ultimately show ?thesis unfolding 2(4) using assms(1) 2(2) by (intro wf_store_append) auto
    qed
  qed
  have 2: "wf_store S" if "verify w User code = (S, resp)"
    using that assms(1) wf_store_save_existing
    by (auto simp: verify_def Let_def split: if_splits option.splits)
  have 3: "wf_store S"
    if "resend_verification w User mail = (S, resp) \<or> forgot_password w User mail = (S, resp)"
  proof -
    from that resend_result forgot_result
    consider "S = User"
      | c u where "generateUniqueVerificationCode User (random_draws w) = Some c"
          "S = save_existing (u\<lparr>verificationToken := Some c,
                    verificationExpires := Some (date_now w + 10 * 60 * 1000)\<rparr>) User"
      by blast
    then show ?thesis
    proof cases
      case 1
      then show ?thesis using assms(1) by simp
    next
      case 2
      have "\<forall>v\<in>set User. verificationToken v \<noteq> Some c" using generate_Some [OF 2(1)] by blast
      then show ?thesis unfolding 2(2) using assms(1) by (intro wf_store_save_existing) auto
    qed
  qed
  have 4: "wf_store S" if "reset_password w User uid pw = (S, resp)"
    using that assms(1) wf_store_save_existing
    by (auto simp: reset_password_def Let_def split: if_splits option.splits)
  show ?thesis using assms(2) 1 2 3 4 by blast
qed

theorem wf_store_preserved_witness:
  "wf_store example_users
   \<and> register example_world example_users carol_body
       = (example_users @ [carol],
          Some \<lparr>status = 201, body = JMessage
            ''Usuario registrado exitosamente. Por favor, verifica tu correo para activar tu cuenta.''\<rparr>)
   \<and> wf_store (example_users @ [carol])"
proof -
  have wf: "wf_store example_users"
    by (simp add: wf_store_def example_users_def alice_def bob_def)
  from wf_store_preserved [OF wf, of example_world carol_body "example_users @ [carol]"]
    register_example
  have "wf_store (example_users @ [carol])" by blast
  then show ?thesis using wf register_example by blast
qed

section \<open>The recent VOD list\<close>

text \<open>
  /vods/recent serves a page of the first 50 items of the upstream list sorted by
  \<open>added\<close>, most recent first; the sort keeps the items and their number.
\<close>

theorem vods_recent_sorts_then_truncates:
  "data (vods_recent_body vods pg) = paginate (take 50 (sort_added_desc vods)) pg
   \<and> set (data (vods_recent_body vods pg)) \<subseteq> set (take 50 (sort_added_desc vods))
   \<and> sorted (map (\<lambda>x. - added x) (sort_added_desc vods))
   \<and> set (sort_added_desc vods) = set vods
   \<and> length (sort_added_desc vods) = length vods"
proof -
  have "data (vods_recent_body vods pg) = paginate (take 50 (sort_added_desc vods)) pg"
    by (simp add: vods_recent_body_def Let_def js_slice_0)
  moreover have "set (paginate (take 50 (sort_added_desc vods)) pg)
      \<subseteq> set (take 50 (sort_added_desc vods))"
    by (rule set_paginate)
  moreover have "sorted (map (\<lambda>x. - added x) (sort_added_desc vods))"
    unfolding sort_added_desc_def by (rule sorted_sort_key)
  ultimately show ?thesis by (simp add: sort_added_desc_def)
qed

end
